theory Spec2Isabelle
  imports Main "HOL-Library.Multiset" "HOL-Library.Sublist"
begin

unbundle bit_operations_syntax

section \<open>Python values and builtins used by inficon.py\<close>

text \<open>
  The program is Python 2: a \<open>str\<close> is a sequence of bytes, modelled as \<open>string\<close>
  (a list of 8-bit \<open>char\<close>), and integers are unbounded, modelled as \<open>int\<close>.
  Exceptions are values of \<open>error\<close>. A function that has effects takes the \<open>world\<close>
  and returns its result (or the exception it raised) together with the world it left.
\<close>

datatype error =
    ValueError
  | TypeError
  | IndexError
  | IOError
  | SerialException
  | SystemExit int

text \<open>What \<open>receive\<close> can return: a \<open>str\<close>, or \<open>None\<close> when it falls off its end.\<close>

datatype pyval = Str string | PyNone

definition newline :: char where
  "newline = CHR 0x0A"

text \<open>\<open>ord(s)\<close>: the byte value of a one-character string, TypeError for any other length.\<close>

fun py_ord :: "string \<Rightarrow> error + int" where
  "py_ord [c] = Inr (of_char c)"
| "py_ord s = Inl TypeError"

text \<open>\<open>chr(n)\<close>: the one-character string of byte \<open>n\<close>, ValueError outside \<open>range(256)\<close>.\<close>

definition py_chr :: "int \<Rightarrow> error + string" where
  "py_chr n = (if 0 \<le> n \<and> n < 256 then Inr [char_of n] else Inl ValueError)"

text \<open>
  \<open>fmt.format(*args)\<close> of Python's \<open>str\<close>: text is copied, \<open>{{\<close> and \<open>}}\<close> are escaped
  braces, \<open>{}\<close> takes the next positional argument (IndexError when there is none left), a
  single brace is a ValueError. Arguments that no field uses are ignored, as Python does.
  Numbered and named fields and format specifications do not occur in the program and
  are not modelled: a format string that has one is answered with ValueError here. The
  two format strings of the program hold no brace at all.
\<close>

fun py_format :: "string \<Rightarrow> string list \<Rightarrow> error + string" where
  "py_format [] args = Inr []"
| "py_format [c] args =
     (if c = CHR ''{'' \<or> c = CHR ''}'' then Inl ValueError else Inr [c])"
| "py_format (c # d # r) args =
     (if c = CHR ''{'' \<and> d = CHR ''{'' \<or> c = CHR ''}'' \<and> d = CHR ''}'' then
        (case py_format r args of Inl e \<Rightarrow> Inl e | Inr t \<Rightarrow> Inr (c # t))
      else if c = CHR ''{'' \<and> d = CHR ''}'' then
        (case args of
           [] \<Rightarrow> Inl IndexError
         | a # as \<Rightarrow> (case py_format r as of Inl e \<Rightarrow> Inl e | Inr t \<Rightarrow> Inr (a @ t)))
      else if c = CHR ''{'' \<or> c = CHR ''}'' then Inl ValueError
      else (case py_format (d # r) args of Inl e \<Rightarrow> Inl e | Inr t \<Rightarrow> Inr (c # t)))"

section \<open>The world: serial line, clock and output channels\<close>

text \<open>
  \<open>rx\<close> is what the serial line will deliver: \<open>Some c\<close> is the byte \<open>c\<close> arriving,
  \<open>None\<close> is the read timeout elapsing with nothing received; after the last event the
  line stays silent. \<open>reads\<close> records every \<open>port.read\<close> call (size asked, bytes
  returned) and \<open>tx\<close> the argument of every \<open>port.write\<close> call. \<open>wtimeouts\<close> says
  which of the coming writes raise SerialTimeoutException, \<open>clock\<close> what
  \<open>str(datetime.datetime.now())\<close> returns at each call.
\<close>

record world =
  rx :: "char option list"
  reads :: "(nat \<times> string) list"
  tx :: "string list"
  wtimeouts :: "bool list"
  clock :: "nat \<Rightarrow> string"
  ticks :: nat
  stdout :: string
  stderr :: string
  logfile :: string
  log_openable :: bool
  serial_openable :: bool
  serial_open :: bool

text \<open>Bytes taken from the line by one \<open>read(n)\<close>: stops early at a timeout.\<close>

fun take_bytes :: "nat \<Rightarrow> char option list \<Rightarrow> string \<times> char option list" where
  "take_bytes 0 es = ([], es)"
| "take_bytes (Suc n) [] = ([], [])"
| "take_bytes (Suc n) (None # es) = ([], es)"
| "take_bytes (Suc n) (Some c # es) =
     (case take_bytes n es of (d, r) \<Rightarrow> (c # d, r))"

definition port_read :: "nat \<Rightarrow> world \<Rightarrow> string \<times> world" where
  "port_read n w =
     (case take_bytes n (rx w) of
        (d, r) \<Rightarrow> (d, w\<lparr>rx := r, reads := reads w @ [(n, d)]\<rparr>))"

text \<open>\<open>port.write(data)\<close>: True when the write raised SerialTimeoutException.\<close>

definition port_write :: "string \<Rightarrow> world \<Rightarrow> bool \<times> world" where
  "port_write d w =
     (case wtimeouts w of
        [] \<Rightarrow> (False, w\<lparr>tx := tx w @ [d]\<rparr>)
      | t # ts \<Rightarrow> (t, w\<lparr>tx := tx w @ [d], wtimeouts := ts\<rparr>))"

definition now :: "world \<Rightarrow> string \<times> world" where
  "now w = (clock w (ticks w), w\<lparr>ticks := Suc (ticks w)\<rparr>)"

definition stderr_write :: "string \<Rightarrow> world \<Rightarrow> world" where
  "stderr_write s w = w\<lparr>stderr := stderr w @ s\<rparr>"

text \<open>The \<open>print\<close> statement: the string and a newline on standard output.\<close>

definition print_line :: "string \<Rightarrow> world \<Rightarrow> world" where
  "print_line s w = w\<lparr>stdout := stdout w @ s @ [newline]\<rparr>"

section \<open>The protocol: checksum, send, receive\<close>

text \<open>\<open>STX = chr(2)\<close>\<close>

definition STX :: string where
  "STX = [CHR 0x02]"

definition checksum :: "string \<Rightarrow> error + string" where
  "checksum line = py_chr (foldl (\<lambda>chk char. chk + of_char char) 0 line AND 255)"

definition send :: "string \<Rightarrow> world \<Rightarrow> (error + unit) \<times> world" where
  "send cmd w =
     (case py_chr (int (length cmd)) of
        Inl e \<Rightarrow> (Inl e, w)
      | Inr l \<Rightarrow>
          (case checksum cmd of
             Inl e \<Rightarrow> (Inl e, w)
           | Inr c \<Rightarrow>
               (case port_write (STX @ l @ cmd @ c) w of
                  (False, w1) \<Rightarrow> (Inr (), w1)
                | (True, w1) \<Rightarrow>
                    (case now w1 of
                       (t, w2) \<Rightarrow>
                         (case py_format ''%s: serial timeout sending command: %s'' [t, cmd] of
                            Inl e \<Rightarrow> (Inl e, w2)
                          | Inr m \<Rightarrow> (Inr (), stderr_write m w2))))))"

text \<open>
  The loop of \<open>receive\<close> that skips anything that is not STX. True when STX was read,
  False when the loop gave up (it has then written its message).
\<close>

function await_stx :: "int \<Rightarrow> int \<Rightarrow> world \<Rightarrow> bool \<times> world" where
  "await_stx retries attempt w =
     (if fst (port_read 1 w) \<noteq> STX \<and> attempt > retries then
        (False, stderr_write (''Timeout while waiting for STX'' @ [newline]) (snd (port_read 1 w)))
      else if fst (port_read 1 w) \<noteq> STX then
        await_stx retries (attempt + 1) (snd (port_read 1 w))
      else (True, snd (port_read 1 w)))"
  by pat_completeness auto
termination
  by (relation "measure (\<lambda>(retries, attempt, w). nat (retries + 1 - attempt))") auto

declare await_stx.simps [simp del]

definition receive :: "int \<Rightarrow> world \<Rightarrow> (error + pyval) \<times> world" where
  "receive retries w =
     (case await_stx retries 1 w of
        (False, w1) \<Rightarrow> (Inr (Str []), w1)
      | (True, w1) \<Rightarrow>
          (case port_read 1 w1 of
             (b, w2) \<Rightarrow>
               (case py_ord b of
                  Inl e \<Rightarrow> (Inl e, w2)
                | Inr sz \<Rightarrow>
                    (case port_read (nat sz) w2 of
                       (data, w3) \<Rightarrow>
                         if int (length data) \<noteq> sz then
                           (case now w3 of
                              (t, w4) \<Rightarrow>
                                (case py_format ''%s: serial timeout while receiving data: %s''
                                        [t, data] of
                                   Inl e \<Rightarrow> (Inl e, w4)
                                 | Inr m \<Rightarrow> (Inr (Str []), stderr_write m w4)))
                         else
                           (case port_read 1 w3 of
                              (chk, w4) \<Rightarrow>
                                (case checksum data of
                                   Inl e \<Rightarrow> (Inl e, w4)
                                 | Inr c \<Rightarrow>
                                     if chk = c then (Inr (Str data), w4)
                                     else (Inr PyNone,
                                           stderr_write (''Invalid message: '' @ data @ [newline])
                                             w4)))))))"

section \<open>Reading extraction: the regular expression\<close>

text \<open>
  \<open>re.match\<close> on the fragment of regular expressions that the program uses: a pattern is
  a sequence of items, each one character class, possibly under a greedy \<open>*\<close> or \<open>+\<close>.
  The matcher backtracks as Python's does: a starred item first takes as many characters
  as it can and gives them back one by one until the rest of the pattern matches. The
  result is the length of the match, anchored at the start of the string.
  On a byte string \<open>.\<close> is any character but a newline and \<open>\d\<close> is \<open>[0-9]\<close>.
\<close>

datatype atom = AnyChar | Lit char | Digit

datatype item = One atom | Star atom | Plus atom

definition is_digit :: "char \<Rightarrow> bool" where
  "is_digit c = (48 \<le> (of_char c :: nat) \<and> (of_char c :: nat) \<le> 57)"

fun accepts :: "atom \<Rightarrow> char \<Rightarrow> bool" where
  "accepts AnyChar c = (c \<noteq> newline)"
| "accepts (Lit d) c = (c = d)"
| "accepts Digit c = is_digit c"

fun rmatch :: "item list \<Rightarrow> string \<Rightarrow> nat option" where
  "rmatch [] s = Some 0"
| "rmatch (One a # r) [] = None"
| "rmatch (One a # r) (c # cs) =
     (if accepts a c then map_option Suc (rmatch r cs) else None)"
| "rmatch (Star a # r) [] = rmatch r []"
| "rmatch (Star a # r) (c # cs) =
     (if accepts a c then
        (case rmatch (Star a # r) cs of
           Some n \<Rightarrow> Some (Suc n)
         | None \<Rightarrow> rmatch r (c # cs))
      else rmatch r (c # cs))"
| "rmatch (Plus a # r) [] = None"
| "rmatch (Plus a # r) (c # cs) =
     (if accepts a c then map_option Suc (rmatch (Star a # r) cs) else None)"

text \<open>The pattern \<open>(.*-\d+)\<close>: its only group is the whole match.\<close>

definition reading_pattern :: "item list" where
  "reading_pattern = [Star AnyChar, One (Lit (CHR ''-'')), Plus Digit]"

text \<open>
  \<open>re.match(pattern, x)\<close> followed by \<open>group(1)\<close>: TypeError when \<open>x\<close> is \<open>None\<close>,
  otherwise \<open>None\<close> (no match) or the text of the match.
\<close>

fun re_match :: "item list \<Rightarrow> pyval \<Rightarrow> error + string option" where
  "re_match p PyNone = Inl TypeError"
| "re_match p (Str s) = Inr (map_option (\<lambda>n. take n s) (rmatch p s))"

text \<open>
  The extraction step of the polling loop: the text of the match when there is one, the
  empty string when there is none.
\<close>

definition extract_reading :: "pyval \<Rightarrow> error + string" where
  "extract_reading r =
     (case re_match reading_pattern r of
        Inl e \<Rightarrow> Inl e
      | Inr None \<Rightarrow> Inr []
      | Inr (Some g) \<Rightarrow> Inr g)"

section \<open>Startup: the gauge list\<close>

text \<open>\<open>s.split(sep)\<close> for a one-character separator: never the empty list.\<close>

fun py_split :: "char \<Rightarrow> string \<Rightarrow> string list" where
  "py_split sep [] = [[]]"
| "py_split sep (c # cs) =
     (if c = sep then [] # py_split sep cs
      else (case py_split sep cs of
              [] \<Rightarrow> [[c]]
            | x # xs \<Rightarrow> (c # x) # xs))"

fun py_join :: "string \<Rightarrow> string list \<Rightarrow> string" where
  "py_join sep [] = []"
| "py_join sep [x] = x"
| "py_join sep (x # y # r) = x @ sep @ py_join sep (y # r)"

definition is_space :: "char \<Rightarrow> bool" where
  "is_space c = (c \<in> set [CHR '' '', CHR 0x09, CHR 0x0A, CHR 0x0B, CHR 0x0C, CHR 0x0D])"

definition digits_value :: "string \<Rightarrow> int" where
  "digits_value ds = foldl (\<lambda>a c. 10 * a + (of_char c - 48)) 0 ds"

text \<open>
  \<open>int(s)\<close> on a byte string, base 10, as CPython 2 parses it: white space around (the
  six characters of C's \<open>isspace\<close>), an optional sign, white space again (CPython 2
  skips it after the sign, so \<open>int("- 1")\<close> is \<open>-1\<close> there), then one or more decimal
  digits; ValueError for anything else.
\<close>

definition py_int :: "string \<Rightarrow> error + int" where
  "py_int s =
     (case rev (dropWhile is_space (rev (dropWhile is_space s))) of
        [] \<Rightarrow> Inl ValueError
      | c # r \<Rightarrow>
          (case (if c = CHR ''+'' then (1, dropWhile is_space r)
                 else if c = CHR ''-'' then (- 1, dropWhile is_space r)
                 else (1, c # r)) of
             (sign, ds) \<Rightarrow>
               if ds \<noteq> [] \<and> list_all is_digit ds then Inr (sign * digits_value ds)
               else Inl ValueError))"

text \<open>The options of the command line that the main program reads.\<close>

record args =
  opt_gauges :: string
  opt_log :: string
  opt_interactive :: bool
  opt_oneshot :: bool
  opt_poll :: int

text \<open>
  The gauge sanity check: \<open>assert int(gauge) in range(10)\<close> for each entry in turn; the
  first entry that fails prints its message and calls \<open>sys.exit(1)\<close>.
\<close>

fun check_gauges :: "string list \<Rightarrow> world \<Rightarrow> (error + unit) \<times> world" where
  "check_gauges [] w = (Inr (), w)"
| "check_gauges (gauge # gs) w =
     (case py_int gauge of
        Inl e \<Rightarrow> (Inl (SystemExit 1), print_line (''Invalid gauge: '' @ gauge) w)
      | Inr n \<Rightarrow>
          if 0 \<le> n \<and> n < 10 then check_gauges gs w
          else (Inl (SystemExit 1),
                print_line (''Invalid gauge '' @ gauge @ '' (should be 0-9)'') w))"

text \<open>
  Opening the log: standard output itself when the option is \<open>STDOUT\<close>, otherwise the
  file in append mode, with the CSV header when the file is empty.
\<close>

definition open_log :: "args \<Rightarrow> world \<Rightarrow> (error + unit) \<times> world" where
  "open_log a w =
     (if opt_log a = ''STDOUT'' then (Inr (), w)
      else if \<not> log_openable w then (Inl IOError, w)
      else if logfile w = [] then
        (Inr (), w\<lparr>logfile := ''datetime,'' @ opt_gauges a @ [newline]\<rparr>)
      else (Inr (), w))"

definition log_write :: "args \<Rightarrow> string \<Rightarrow> world \<Rightarrow> world" where
  "log_write a s w =
     (if opt_log a = ''STDOUT'' then w\<lparr>stdout := stdout w @ s\<rparr>
      else w\<lparr>logfile := logfile w @ s\<rparr>)"

text \<open>
  The main program up to the polling loop: the gauge check, the header, the log, the
  serial port. It returns the list of gauges.
\<close>

definition startup :: "args \<Rightarrow> world \<Rightarrow> (error + string list) \<times> world" where
  "startup a w =
     (case check_gauges (py_split (CHR '','') (opt_gauges a)) w of
        (Inl e, w1) \<Rightarrow> (Inl e, w1)
      | (Inr u, w1) \<Rightarrow>
          (case open_log a (print_line (''datetime,'' @ opt_gauges a) w1) of
             (Inl e, w2) \<Rightarrow> (Inl e, w2)
           | (Inr u, w2) \<Rightarrow>
               if serial_openable w2 then
                 (Inr (py_split (CHR '','') (opt_gauges a)), w2\<lparr>serial_open := True\<rparr>)
               else (Inl SerialException, w2)))"

section \<open>The polling loop\<close>

text \<open>
  The \<open>for gauge in gauges\<close> loop of one polling cycle, with the readings collected so
  far. \<open>receive\<close> is called with its default of 5 retries. An exception of \<open>send\<close>,
  \<open>receive\<close> or \<open>re.match\<close> is not caught by the main loop (which catches only
  KeyboardInterrupt and EOFError) and ends the process.
\<close>

fun poll_gauges :: "string list \<Rightarrow> string list \<Rightarrow> world \<Rightarrow> (error + string list) \<times> world" where
  "poll_gauges [] readings w = (Inr readings, w)"
| "poll_gauges (gauge # gs) readings w =
     (case send (''S0'' @ gauge) w of
        (Inl e, w1) \<Rightarrow> (Inl e, w1)
      | (Inr u, w1) \<Rightarrow>
          (case receive 5 w1 of
             (Inl e, w2) \<Rightarrow> (Inl e, w2)
           | (Inr r, w2) \<Rightarrow>
               (case extract_reading r of
                  Inl e \<Rightarrow> (Inl e, w2)
                | Inr g \<Rightarrow> poll_gauges gs (readings @ [g]) w2)))"

text \<open>
  One pass of the body of \<open>while True\<close> in polling mode: the readings, the CSV line on
  standard output and in the log, then \<open>sys.exit(0)\<close> in one-shot mode.
\<close>

definition poll_cycle :: "args \<Rightarrow> string list \<Rightarrow> world \<Rightarrow> (error + unit) \<times> world" where
  "poll_cycle a gauges w =
     (case poll_gauges gauges [] w of
        (Inl e, w1) \<Rightarrow> (Inl e, w1)
      | (Inr readings, w1) \<Rightarrow>
          (case now w1 of
             (t, w2) \<Rightarrow>
               (case log_write a (py_join '','' (t # readings) @ [newline])
                       (print_line (py_join '','' (t # readings)) w2) of
                  w3 \<Rightarrow>
                    if opt_oneshot a then (Inl (SystemExit 0), w3) else (Inr (), w3))))"


section \<open>Notions used to state the properties\<close>

text \<open>A gauge entry that passes \<open>assert int(gauge) in range(10)\<close>.\<close>

definition valid_gauge :: "string \<Rightarrow> bool" where
  "valid_gauge g = (case py_int g of Inl e \<Rightarrow> False | Inr n \<Rightarrow> 0 \<le> n \<and> n < 10)"

text \<open>The number of \<open>port.read\<close> calls so far that did not return STX.\<close>

definition failed_reads :: "world \<Rightarrow> nat" where
  "failed_reads w = length (filter (\<lambda>r. snd r \<noteq> STX) (reads w))"

text \<open>
  The shape that the specification gives for a reading: digits and decimal points, a
  hyphen, digits.
\<close>

definition spec_reading_shape :: "string \<Rightarrow> bool" where
  "spec_reading_shape s =
     (case dropWhile (\<lambda>c. is_digit c \<or> c = CHR ''.'') s of
        [] \<Rightarrow> False
      | h # d \<Rightarrow>
          takeWhile (\<lambda>c. is_digit c \<or> c = CHR ''.'') s \<noteq> [] \<and> h = CHR ''-'' \<and>
          d \<noteq> [] \<and> list_all is_digit d)"

text \<open>
  The frame of the wire protocol as the specification gives it: the byte 2, one length
  byte, the payload, one byte holding the sum of the payload's byte values modulo 256.
\<close>

definition len_byte :: "string \<Rightarrow> char" where
  "len_byte payload = char_of (int (length payload))"

definition sum_byte :: "string \<Rightarrow> char" where
  "sum_byte payload = char_of (sum_list (map of_char payload) mod 256 :: int)"

definition spec_frame :: "string \<Rightarrow> string" where
  "spec_frame payload = CHR 0x02 # len_byte payload # payload @ [sum_byte payload]"

text \<open>
  A world to run examples in: a silent line, writes that succeed, nothing written yet,
  the serial port not opened.
\<close>

definition world0 :: world where
  "world0 =
     \<lparr>rx = [], reads = [], tx = [], wtimeouts = [],
      clock = (\<lambda>n. ''2016-01-01 00:00:00.000000''), ticks = 0,
      stdout = [], stderr = [], logfile = [],
      log_openable = True, serial_openable = True, serial_open = False\<rparr>"

definition args0 :: args where
  "args0 =
     \<lparr>opt_gauges = ''0,1'', opt_log = ''STDOUT'', opt_interactive = False,
      opt_oneshot = False, opt_poll = 60\<rparr>"

section \<open>Properties of the checksum\<close>

lemma of_char_nonneg: "0 \<le> (of_char c :: int)"
proof -
  have "(of_char c :: int) = int (of_char c)"
    by (simp only: of_nat_of_char)
  then show ?thesis by simp
qed

lemma foldl_ord_sum:
  "foldl (\<lambda>chk char. chk + of_char char) (a :: int) line = a + sum_list (map of_char line)"
  by (induction line arbitrary: a) simp_all

lemma checksum_eq: "checksum line = Inr [sum_byte line]"
proof -
  have nonneg: "0 \<le> (sum_list (map of_char line) :: int)"
    by (rule sum_list_nonneg) (auto simp: of_char_nonneg)
  have "(sum_list (map of_char line) :: int) AND 255 = sum_list (map of_char line) mod 256"
    using take_bit_eq_mask [of 8 "sum_list (map of_char line) :: int"]
    by (simp add: take_bit_eq_mod mask_eq_exp_minus_1)
  then show ?thesis
    by (simp add: checksum_def py_chr_def foldl_ord_sum sum_byte_def)
qed

lemma ord_sum_byte: "(of_char (sum_byte line) :: int) = sum_list (map of_char line) mod 256"
  unfolding sum_byte_def by (simp only: of_char_of mod_mod_trivial)

lemma ord_len_byte: "length line \<le> 255 \<Longrightarrow> (of_char (len_byte line) :: int) = int (length line)"
  unfolding len_byte_def by (simp only: of_char_of) simp

lemma chr_len: "length line \<le> 255 \<Longrightarrow> py_chr (int (length line)) = Inr [len_byte line]"
  by (simp add: py_chr_def len_byte_def)

lemma sum_ord_mset:
  "mset line = mset line' \<Longrightarrow> (sum_list (map of_char line) :: int) = sum_list (map of_char line')"
proof -
  assume "mset line = mset line'"
  then have "mset (map of_char line :: int list) = mset (map of_char line')"
    by (metis mset_map)
  then show ?thesis by (metis sum_mset_sum_list)
qed

text \<open>
  Claim C9: \<open>checksum\<close> returns one byte whose value is the sum of the byte values of
  its argument modulo 256, and two arguments that are permutations of each other have the
  same checksum.
\<close>

theorem checksum_sum_mod_256_permutation_invariant:
  "checksum line = Inr [sum_byte line] \<and>
   (of_char (sum_byte line) :: int) = sum_list (map of_char line) mod 256 \<and>
   (mset line = mset line' \<longrightarrow> checksum line = checksum line')"
  by (simp add: checksum_eq ord_sum_byte sum_byte_def sum_ord_mset [of line line'])

theorem checksum_witness:
  "mset ''AB'' = mset ''BA'' \<and> checksum ''AB'' = checksum ''BA'' \<and> checksum ''AB'' = Inr [CHR 0x83]"
proof -
  have m: "mset ''AB'' = mset ''BA''"
    by simp
  have b: "sum_byte ''AB'' = CHR 0x83"
    by (simp add: sum_byte_def char_of_def)
  from checksum_sum_mod_256_permutation_invariant [of "''AB''" "''BA''"] m
  have "checksum ''AB'' = Inr [sum_byte ''AB'']" and "checksum ''AB'' = checksum ''BA''"
    by blast+
  with m b show ?thesis
    by (simp only: simp_thms)
qed

section \<open>Sending and receiving frames\<close>

lemma fmt_send: "py_format ''%s: serial timeout sending command: %s'' as = Inr ''%s: serial timeout sending command: %s''"
  by simp

lemma send_result:
  assumes "length cmd \<le> 255"
  shows "fst (send cmd w) = Inr ()"
    and "tx (snd (send cmd w)) = tx w @ [spec_frame cmd]"
    and "rx (snd (send cmd w)) = rx w"
  using assms
  by (auto simp: send_def chr_len checksum_eq port_write_def now_def stderr_write_def STX_def fmt_send spec_frame_def
      split: list.splits bool.splits)

lemma take_bytes_Some: "take_bytes (length bs) (map Some bs @ rest) = (bs, rest)"
  by (induction bs) simp_all

lemma port_read_bytes:
  "rx w = map Some bs @ rest \<Longrightarrow>
   port_read (length bs) w = (bs, w\<lparr>rx := rest, reads := reads w @ [(length bs, bs)]\<rparr>)"
  by (simp add: port_read_def take_bytes_Some)

lemma port_read_one:
  "rx w = Some c # rest \<Longrightarrow>
   port_read (Suc 0) w = ([c], w\<lparr>rx := rest, reads := reads w @ [(Suc 0, [c])]\<rparr>)"
  using port_read_bytes [of w "[c]" rest] by simp

lemma await_stx_found:
  "rx w = Some (CHR 0x02) # es \<Longrightarrow>
   await_stx retries attempt w = (True, w\<lparr>rx := es, reads := reads w @ [(1, STX)]\<rparr>)"
  by (subst await_stx.simps) (simp add: port_read_one STX_def)

lemma await_stx_garbage:
  "CHR 0x02 \<notin> set g \<Longrightarrow> int (length g) + attempt \<le> retries + 1 \<Longrightarrow>
   rx w = map Some g @ Some (CHR 0x02) # es \<Longrightarrow>
   await_stx retries attempt w =
     (True, w\<lparr>rx := es, reads := reads w @ map (\<lambda>c. (1, [c])) g @ [(1, STX)]\<rparr>)"
proof (induction g arbitrary: attempt w)
  case Nil
  then show ?case by (simp add: await_stx_found)
next
  case (Cons c g)
  from Cons.prems have rd:
    "port_read (Suc 0) w = ([c], w\<lparr>rx := map Some g @ Some (CHR 0x02) # es, reads := reads w @ [(Suc 0, [c])]\<rparr>)"
    by (simp add: port_read_one)
  from Cons.prems have ne: "[c] \<noteq> STX" and le: "\<not> attempt > retries"
    by (auto simp: STX_def)
  have "await_stx retries attempt w =
        await_stx retries (attempt + 1)
          (w\<lparr>rx := map Some g @ Some (CHR 0x02) # es, reads := reads w @ [(Suc 0, [c])]\<rparr>)"
    by (subst await_stx.simps) (simp add: rd ne le)
  also have "\<dots> = (True, w\<lparr>rx := es, reads := reads w @ map (\<lambda>c. (1, [c])) (c # g) @ [(1, STX)]\<rparr>)"
    using Cons.prems by (subst Cons.IH) auto
  finally show ?case .
qed

lemma receive_after_stx:
  assumes stx: "await_stx retries 1 w = (True, w1)"
    and rx1: "rx w1 = map Some (len_byte d # d @ [sum_byte d]) @ rest"
    and len: "length d \<le> 255"
  shows "receive retries w =
         (Inr (Str d),
          w1\<lparr>rx := rest,
             reads := reads w1 @ [(1, [len_byte d]), (length d, d), (1, [sum_byte d])]\<rparr>)"
proof -
  define w2 where "w2 = w1\<lparr>rx := map Some (d @ [sum_byte d]) @ rest, reads := reads w1 @ [(1, [len_byte d])]\<rparr>"
  define w3 where "w3 = w2\<lparr>rx := map Some [sum_byte d] @ rest, reads := reads w2 @ [(length d, d)]\<rparr>"
  define w4 where "w4 = w3\<lparr>rx := rest, reads := reads w3 @ [(1, [sum_byte d])]\<rparr>"
  have r1: "port_read 1 w1 = ([len_byte d], w2)"
    using rx1 by (simp add: port_read_one w2_def)
  have sz: "py_ord [len_byte d] = Inr (int (length d))"
    using len by (simp add: ord_len_byte)
  have r2: "port_read (length d) w2 = (d, w3)"
    unfolding w3_def by (rule port_read_bytes) (simp add: w2_def)
  have r3: "port_read 1 w3 = ([sum_byte d], w4)"
    using port_read_one [of w3 "sum_byte d" rest] by (simp add: w3_def w4_def)
  have "receive retries w = (Inr (Str d), w4)"
    by (simp only: receive_def stx r1 sz r2 r3 checksum_eq nat_int prod.case bool.case
        sum.case simp_thms if_True if_False)
  then show ?thesis
    by (simp add: w4_def w3_def w2_def)
qed

text \<open>
  Claim C6: for a command of at most 255 bytes, \<open>send\<close> raises nothing and makes
  exactly one \<open>port.write\<close> call, whose argument is the byte 2, then one byte whose
  value is the length of the command, then the command, then one byte whose value is the
  sum of the command's byte values modulo 256.
\<close>

theorem send_wire_format:
  "length cmd \<le> 255 \<Longrightarrow>
   fst (send cmd w) = Inr () \<and>
   tx (snd (send cmd w)) = tx w @ [CHR 0x02 # len_byte cmd # cmd @ [sum_byte cmd]] \<and>
   (of_char (len_byte cmd) :: int) = int (length cmd) \<and>
   (of_char (sum_byte cmd) :: int) = sum_list (map of_char cmd) mod 256"
  using send_result [of cmd w] by (simp add: spec_frame_def ord_len_byte ord_sum_byte)

theorem send_wire_format_witness:
  "length ''S00'' \<le> 255 \<and>
   fst (send ''S00'' world0) = Inr () \<and>
   tx (snd (send ''S00'' world0)) = [[CHR 0x02, CHR 0x03, CHR ''S'', CHR ''0'', CHR ''0'', CHR 0xB3]]"
  using send_wire_format [of "''S00''" world0]
  by (simp add: world0_def len_byte_def sum_byte_def char_of_def)

text \<open>
  Claim C2: round trip. When the line delivers the frame that \<open>send\<close> wrote for a
  command of at most 255 bytes, \<open>receive\<close> returns exactly that command, takes exactly
  the bytes of the frame from the line and reports nothing.
\<close>

theorem send_receive_roundtrip:
  "length cmd \<le> 255 \<Longrightarrow> rx v = map Some (last (tx (snd (send cmd w)))) @ rest \<Longrightarrow>
   fst (receive retries v) = Inr (Str cmd) \<and>
   rx (snd (receive retries v)) = rest \<and>
   stderr (snd (receive retries v)) = stderr v"
proof -
  assume len: "length cmd \<le> 255"
    and rxv: "rx v = map Some (last (tx (snd (send cmd w)))) @ rest"
  from len have "last (tx (snd (send cmd w))) = spec_frame cmd"
    by (simp add: send_result)
  with rxv have rxv': "rx v = Some (CHR 0x02) # map Some (len_byte cmd # cmd @ [sum_byte cmd]) @ rest"
    by (simp add: spec_frame_def)
  define v1 where "v1 = v\<lparr>rx := map Some (len_byte cmd # cmd @ [sum_byte cmd]) @ rest, reads := reads v @ [(1, STX)]\<rparr>"
  have "await_stx retries 1 v = (True, v1)"
    unfolding v1_def using rxv' by (rule await_stx_found)
  moreover have "rx v1 = map Some (len_byte cmd # cmd @ [sum_byte cmd]) @ rest"
    by (simp add: v1_def)
  ultimately have "receive retries v =
      (Inr (Str cmd), v1\<lparr>rx := rest, reads := reads v1 @ [(1, [len_byte cmd]), (length cmd, cmd), (1, [sum_byte cmd])]\<rparr>)"
    using len by (rule receive_after_stx)
  then show ?thesis
    by (simp add: v1_def)
qed

theorem send_receive_roundtrip_witness:
  "length ''S00'' \<le> 255 \<and>
   rx (world0\<lparr>rx := map Some [CHR 0x02, CHR 0x03, CHR ''S'', CHR ''0'', CHR ''0'', CHR 0xB3]\<rparr>) =
     map Some (last (tx (snd (send ''S00'' world0)))) @ [] \<and>
   fst (receive 5 (world0\<lparr>rx := map Some [CHR 0x02, CHR 0x03, CHR ''S'', CHR ''0'', CHR ''0'', CHR 0xB3]\<rparr>)) =
     Inr (Str ''S00'')"
proof -
  have f: "last (tx (snd (send ''S00'' world0))) = [CHR 0x02, CHR 0x03, CHR ''S'', CHR ''0'', CHR ''0'', CHR 0xB3]"
    by (simp add: send_result spec_frame_def len_byte_def sum_byte_def char_of_def)
  then have r: "rx (world0\<lparr>rx := map Some [CHR 0x02, CHR 0x03, CHR ''S'', CHR ''0'', CHR ''0'', CHR 0xB3]\<rparr>) =
     map Some (last (tx (snd (send ''S00'' world0)))) @ []"
    by simp
  have l: "length ''S00'' \<le> 255" by simp
  from send_receive_roundtrip [OF l r, of 5] l r show ?thesis
    by blast
qed

section \<open>Hunting for the start marker\<close>

lemma port_read_1_fields:
  "rx (snd (port_read (Suc 0) w)) = drop 1 (rx w)"
  "reads (snd (port_read (Suc 0) w)) = reads w @ [(1, fst (port_read (Suc 0) w))]"
  "stderr (snd (port_read (Suc 0) w)) = stderr w"
  by (cases "rx w"; (cases "hd (rx w)")?; simp add: port_read_def)+

lemma port_read_1_stx:
  "fst (port_read (Suc 0) w) = STX \<Longrightarrow> Some (CHR 0x02) \<in> set (take (Suc n) (rx w))"
  by (cases "rx w"; (cases "hd (rx w)")?; simp add: port_read_def STX_def)

lemma failed_reads_append:
  "reads w' = reads w @ [(n, d)] \<Longrightarrow>
   failed_reads w' = failed_reads w + (if d = STX then 0 else 1)"
  by (simp add: failed_reads_def)

lemma failed_reads_stderr [simp]:
  "failed_reads (stderr_write m w) = failed_reads w"
  "failed_reads (w\<lparr>stderr := s\<rparr>) = failed_reads w"
  by (simp_all add: failed_reads_def stderr_write_def)

lemma await_stx_failed_bound:
  "int (failed_reads (snd (await_stx retries attempt w))) \<le>
   int (failed_reads w) + max 1 (retries - attempt + 2)"
proof (induction retries attempt w rule: await_stx.induct)
  case (1 retries attempt w)
  let ?d = "fst (port_read 1 w)" and ?w1 = "snd (port_read 1 w)"
  have f: "failed_reads ?w1 = failed_reads w + (if ?d = STX then 0 else 1)"
    by (rule failed_reads_append) (simp add: port_read_1_fields)
  show ?case
  proof (cases "?d \<noteq> STX \<and> attempt > retries")
    case True
    then show ?thesis
      using f by (subst await_stx.simps) simp
  next
    case False
    show ?thesis
    proof (cases "?d \<noteq> STX")
      case True
      with False have le: "attempt \<le> retries" by simp
      from True le have "await_stx retries attempt w = await_stx retries (attempt + 1) ?w1"
        by (subst await_stx.simps) simp
      moreover from "1.IH" [OF False True]
      have "int (failed_reads (snd (await_stx retries (attempt + 1) ?w1))) \<le>
            int (failed_reads ?w1) + max 1 (retries - (attempt + 1) + 2)" .
      ultimately show ?thesis
        using f True le by simp
    next
      case stx: False
      then show ?thesis
        using f by (subst await_stx.simps) simp
    qed
  qed
qed

lemma await_stx_timeout:
  "attempt \<le> retries + 1 \<Longrightarrow>
   Some (CHR 0x02) \<notin> set (take (nat (retries - attempt + 2)) (rx w)) \<Longrightarrow>
   fst (await_stx retries attempt w) = False \<and>
   stderr (snd (await_stx retries attempt w)) = stderr w @ ''Timeout while waiting for STX'' @ [newline] \<and>
   failed_reads (snd (await_stx retries attempt w)) = failed_reads w + nat (retries - attempt + 2)"
proof (induction retries attempt w rule: await_stx.induct)
  case (1 retries attempt w)
  let ?d = "fst (port_read 1 w)" and ?w1 = "snd (port_read 1 w)"
  from "1.prems" obtain k where k: "nat (retries - attempt + 2) = Suc k"
    by (cases "nat (retries - attempt + 2)") auto
  with "1.prems" have ne: "?d \<noteq> STX"
    using port_read_1_stx [of w k] by auto
  then have f: "failed_reads ?w1 = failed_reads w + 1"
    using failed_reads_append [of ?w1 w 1 ?d] by (simp add: port_read_1_fields)
  show ?case
  proof (cases "attempt > retries")
    case True
    with "1.prems" have "nat (retries - attempt + 2) = 1" by simp
    with True ne f show ?thesis
      by (subst (1 2 3) await_stx.simps) (simp add: stderr_write_def port_read_1_fields)
  next
    case False
    with ne have eq: "await_stx retries attempt w = await_stx retries (attempt + 1) ?w1"
      by (subst await_stx.simps) simp
    have "set (take (nat (retries - (attempt + 1) + 2)) (rx ?w1)) \<subseteq> set (take (nat (retries - attempt + 2)) (rx w))"
    proof -
      have "nat (retries - attempt + 2) = Suc (nat (retries - (attempt + 1) + 2))"
        using False by simp
      then show ?thesis
        by (cases "rx w") (auto simp: port_read_1_fields)
    qed
    with "1.prems" have "Some (CHR 0x02) \<notin> set (take (nat (retries - (attempt + 1) + 2)) (rx ?w1))"
      by blast
    with "1.IH" [of] False ne
    have "fst (await_stx retries (attempt + 1) ?w1) = False \<and>
          stderr (snd (await_stx retries (attempt + 1) ?w1)) = stderr ?w1 @ ''Timeout while waiting for STX'' @ [newline] \<and>
          failed_reads (snd (await_stx retries (attempt + 1) ?w1)) = failed_reads ?w1 + nat (retries - (attempt + 1) + 2)"
      by simp
    then show ?thesis
      using f False by (simp add: eq port_read_1_fields nat_add_distrib)
  qed
qed

lemma receive_timeout:
  "fst (await_stx retries 1 w) = False \<Longrightarrow>
   receive retries w = (Inr (Str []), snd (await_stx retries 1 w))"
  by (cases "await_stx retries 1 w") (simp add: receive_def)

lemma extract_empty: "extract_reading (Str []) = Inr []"
  by (simp add: extract_reading_def reading_pattern_def)

lemma poll_gauges_after_timeout:
  assumes len: "length gauge \<le> 253"
    and quiet: "Some (CHR 0x02) \<notin> set (take 6 (rx w))"
  shows "poll_gauges (gauge # gs) readings w =
         poll_gauges gs (readings @ [[]]) (snd (receive 5 (snd (send (''S0'' @ gauge) w))))"
proof -
  obtain u w1 where s: "send (''S0'' @ gauge) w = (u, w1)"
    by (cases "send (''S0'' @ gauge) w")
  from len have l: "length (''S0'' @ gauge) \<le> 255" by simp
  from send_result(1,3) [OF l, of w] s have u: "u = Inr ()" and rx1: "rx w1 = rx w"
    by simp_all
  from quiet rx1 have "Some (CHR 0x02) \<notin> set (take (nat (5 - 1 + 2)) (rx w1))"
    by simp
  with await_stx_timeout [of 1 5 w1] have "fst (await_stx 5 1 w1) = False"
    by simp
  then have r: "receive 5 w1 = (Inr (Str []), snd (await_stx 5 1 w1))"
    by (rule receive_timeout)
  show ?thesis
    by (simp only: poll_gauges.simps s u r extract_empty prod.case sum.case snd_conv)
qed

text \<open>
  Claim C3, as amended: while hunting for the start marker \<open>receive\<close> makes at most
  \<open>retries + 1\<close> single-byte reads that fail to yield STX (6 with the default of 5
  retries: the first attempt and five retries). When none of the first \<open>retries + 1\<close>
  reads yields STX, \<open>receive\<close> writes its timeout message to the error channel and
  returns the empty string, having made exactly \<open>retries + 1\<close> failed reads, and the
  polling loop records an empty reading for that gauge and goes on with the next one.
\<close>

theorem sync_timeout_after_retries_exhausted:
  "0 \<le> retries \<Longrightarrow>
   int (failed_reads (snd (await_stx retries 1 w))) \<le> int (failed_reads w) + retries + 1 \<and>
   (Some (CHR 0x02) \<notin> set (take (nat retries + 1) (rx w)) \<longrightarrow>
      fst (receive retries w) = Inr (Str []) \<and>
      stderr (snd (receive retries w)) = stderr w @ ''Timeout while waiting for STX'' @ [newline] \<and>
      failed_reads (snd (receive retries w)) = failed_reads w + nat retries + 1) \<and>
   (length gauge \<le> 253 \<and> Some (CHR 0x02) \<notin> set (take 6 (rx w)) \<longrightarrow>
      poll_gauges (gauge # gs) readings w =
      poll_gauges gs (readings @ [[]]) (snd (receive 5 (snd (send (''S0'' @ gauge) w)))))"
proof (intro conjI impI)
  assume r: "0 \<le> retries"
  from await_stx_failed_bound [of retries 1 w] r
  show "int (failed_reads (snd (await_stx retries 1 w))) \<le> int (failed_reads w) + retries + 1"
    by simp
  {
    assume q: "Some (CHR 0x02) \<notin> set (take (nat retries + 1) (rx w))"
    from r have n: "nat (retries - 1 + 2) = nat retries + 1" by simp
    from await_stx_timeout [of 1 retries w] r q n
    have t: "fst (await_stx retries 1 w) = False"
      "stderr (snd (await_stx retries 1 w)) = stderr w @ ''Timeout while waiting for STX'' @ [newline]"
      "failed_reads (snd (await_stx retries 1 w)) = failed_reads w + nat retries + 1"
      by simp_all
    from receive_timeout [OF t(1)] t
    show "fst (receive retries w) = Inr (Str [])"
      and "stderr (snd (receive retries w)) = stderr w @ ''Timeout while waiting for STX'' @ [newline]"
      and "failed_reads (snd (receive retries w)) = failed_reads w + nat retries + 1"
      by simp_all
  }
next
  assume "length gauge \<le> 253 \<and> Some (CHR 0x02) \<notin> set (take 6 (rx w))"
  then have "length gauge \<le> 253" and "Some (CHR 0x02) \<notin> set (take 6 (rx w))"
    by simp_all
  then show "poll_gauges (gauge # gs) readings w =
      poll_gauges gs (readings @ [[]]) (snd (receive 5 (snd (send (''S0'' @ gauge) w))))"
    by (rule poll_gauges_after_timeout)
qed

theorem sync_timeout_witness:
  "(0::int) \<le> 5 \<and>
   Some (CHR 0x02) \<notin> set (take (nat 5 + 1) (rx (world0\<lparr>rx := map Some ''xxxxxx''\<rparr>))) \<and>
   length ''0'' \<le> 253 \<and>
   fst (receive 5 (world0\<lparr>rx := map Some ''xxxxxx''\<rparr>)) = Inr (Str []) \<and>
   failed_reads (snd (receive 5 (world0\<lparr>rx := map Some ''xxxxxx''\<rparr>))) = 6 \<and>
   fst (poll_gauges [''0''] [] (world0\<lparr>rx := map Some ''xxxxxx''\<rparr>)) = Inr [[]]"
proof -
  let ?w = "world0\<lparr>rx := map Some ''xxxxxx''\<rparr>"
  have r: "(0::int) \<le> 5" by simp
  have q: "Some (CHR 0x02) \<notin> set (take (nat 5 + 1) (rx ?w))" by simp
  have q6: "Some (CHR 0x02) \<notin> set (take 6 (rx ?w))" by simp
  have l: "length ''0'' \<le> 253" by simp
  have f0: "failed_reads ?w = 0" by (simp add: failed_reads_def world0_def)
  from sync_timeout_after_retries_exhausted [OF r, of ?w "''0''" "[]" "[]"] q q6 l f0
  have "fst (receive 5 ?w) = Inr (Str [])"
    and "failed_reads (snd (receive 5 ?w)) = 6"
    and "poll_gauges [''0''] [] ?w = poll_gauges [] [[]] (snd (receive 5 (snd (send (''S0'' @ ''0'') ?w))))"
    by simp_all
  with r q l show ?thesis
    by simp
qed

text \<open>
  Claim C3 as stated (at most \<open>retries = 5\<close> failed reads) fails: on a line that delivers
  six bytes other than STX, \<open>receive\<close> with 5 retries makes six failed reads.
\<close>

theorem sync_timeout_six_failed_reads_counterexample:
  "\<not> failed_reads (snd (receive 5 (world0\<lparr>rx := map Some ''xxxxxx''\<rparr>))) \<le> 5"
  by code_simp

text \<open>
  Claim C4, as amended: when the line delivers at most \<open>retries\<close> bytes other than STX
  and then a valid frame, \<open>receive\<close> returns the payload of the frame and takes exactly
  the garbage and the frame from the line, reporting nothing.
\<close>

theorem garbage_tolerance_within_retries:
  "CHR 0x02 \<notin> set garbage \<Longrightarrow> int (length garbage) \<le> retries \<Longrightarrow> length payload \<le> 255 \<Longrightarrow>
   rx w = map Some (garbage @ spec_frame payload) @ rest \<Longrightarrow>
   fst (receive retries w) = Inr (Str payload) \<and>
   rx (snd (receive retries w)) = rest \<and>
   stderr (snd (receive retries w)) = stderr w"
proof -
  assume g: "CHR 0x02 \<notin> set garbage" and n: "int (length garbage) \<le> retries"
    and len: "length payload \<le> 255"
    and rxw: "rx w = map Some (garbage @ spec_frame payload) @ rest"
  define es where "es = map Some (len_byte payload # payload @ [sum_byte payload]) @ rest"
  define w1 where "w1 = w\<lparr>rx := es, reads := reads w @ map (\<lambda>c. (1, [c])) garbage @ [(1, STX)]\<rparr>"
  from rxw have "rx w = map Some garbage @ Some (CHR 0x02) # es"
    by (simp add: spec_frame_def es_def)
  with g n have "await_stx retries 1 w = (True, w1)"
    unfolding w1_def by (intro await_stx_garbage) auto
  moreover have "rx w1 = map Some (len_byte payload # payload @ [sum_byte payload]) @ rest"
    by (simp add: w1_def es_def)
  ultimately have "receive retries w =
      (Inr (Str payload), w1\<lparr>rx := rest, reads := reads w1 @ [(1, [len_byte payload]), (length payload, payload), (1, [sum_byte payload])]\<rparr>)"
    using len by (rule receive_after_stx)
  then show ?thesis
    by (simp add: w1_def)
qed

theorem garbage_tolerance_witness:
  "CHR 0x02 \<notin> set ''xxxxx'' \<and> int (length ''xxxxx'') \<le> 5 \<and> length ''A'' \<le> 255 \<and>
   fst (receive 5 (world0\<lparr>rx := map Some (''xxxxx'' @ spec_frame ''A'') @ [Some (CHR ''z'')]\<rparr>)) = Inr (Str ''A'') \<and>
   rx (snd (receive 5 (world0\<lparr>rx := map Some (''xxxxx'' @ spec_frame ''A'') @ [Some (CHR ''z'')]\<rparr>))) = [Some (CHR ''z'')]"
proof -
  let ?w = "world0\<lparr>rx := map Some (''xxxxx'' @ spec_frame ''A'') @ [Some (CHR ''z'')]\<rparr>"
  have g: "CHR 0x02 \<notin> set ''xxxxx''" by simp
  have n: "int (length ''xxxxx'') \<le> 5" by simp
  have l: "length ''A'' \<le> 255" by simp
  have r: "rx ?w = map Some (''xxxxx'' @ spec_frame ''A'') @ [Some (CHR ''z'')]" by simp
  from garbage_tolerance_within_retries [OF g n l r] g n l show ?thesis
    by blast
qed

text \<open>
  Claim C4 as stated (arbitrarily many bytes of garbage) fails: after six bytes other than
  STX, \<open>receive\<close> with 5 retries gives up; it does not return the payload of the frame
  that follows, and leaves that frame on the line.
\<close>

theorem garbage_beyond_retries_counterexample:
  "CHR 0x02 \<notin> set ''xxxxxx'' \<and>
   fst (receive 5 (world0\<lparr>rx := map Some (''xxxxxx'' @ spec_frame ''A'')\<rparr>)) \<noteq> Inr (Str ''A'') \<and>
   rx (snd (receive 5 (world0\<lparr>rx := map Some (''xxxxxx'' @ spec_frame ''A'')\<rparr>))) \<noteq> []"
  by code_simp

section \<open>Reading extraction\<close>

lemma hyphen_not_digit: "\<not> is_digit (CHR ''-'')"
  by (simp add: is_digit_def)

lemma hyphen_not_newline: "CHR ''-'' \<noteq> newline"
  by (simp add: newline_def)

lemma rmatch_star_digit: "rmatch [Star Digit] s = Some (length (takeWhile is_digit s))"
  by (induction s) simp_all

lemma rmatch_hyphen_digits:
  "rmatch [One (Lit (CHR ''-'')), Plus Digit] s =
     (case s of
        [] \<Rightarrow> None
      | c # cs \<Rightarrow>
          (case cs of
             [] \<Rightarrow> None
           | e # es \<Rightarrow>
               if c = CHR ''-'' \<and> is_digit e then Some (Suc (Suc (length (takeWhile is_digit es))))
               else None))"
  by (simp add: rmatch_star_digit split: list.splits)

lemma rmatch_hyphen_digits_sound:
  "rmatch [One (Lit (CHR ''-'')), Plus Digit] s = Some n \<Longrightarrow>
   \<exists>d. take n s = CHR ''-'' # d \<and> d \<noteq> [] \<and> list_all is_digit d \<and> n \<le> length s"
proof -
  assume m: "rmatch [One (Lit (CHR ''-'')), Plus Digit] s = Some n"
  then obtain e es where s: "s = CHR ''-'' # e # es" and e: "is_digit e"
    and n: "n = Suc (Suc (length (takeWhile is_digit es)))"
    by (auto simp: rmatch_hyphen_digits split: list.splits if_splits)
  have "take (length (takeWhile is_digit es)) es = takeWhile is_digit es"
    by (metis append_eq_conv_conj takeWhile_dropWhile_id)
  with s n have "take n s = CHR ''-'' # e # takeWhile is_digit es"
    by simp
  moreover have "list_all is_digit (e # takeWhile is_digit es)"
    using e by (auto simp: list_all_iff dest: set_takeWhileD)
  moreover have "n \<le> length s"
    using s n by (simp add: length_takeWhile_le)
  ultimately show ?thesis by blast
qed

lemma rmatch_reading_sound:
  "rmatch reading_pattern s = Some n \<Longrightarrow>
   \<exists>a d. take n s = a @ CHR ''-'' # d \<and> newline \<notin> set a \<and> d \<noteq> [] \<and> list_all is_digit d \<and>
          n \<le> length s"
proof (induction s arbitrary: n)
  case Nil
  then show ?case by (simp add: reading_pattern_def)
next
  case (Cons c cs)
  show ?case
  proof (cases "c \<noteq> newline \<and> rmatch reading_pattern cs \<noteq> None")
    case True
    then obtain m where m: "rmatch reading_pattern cs = Some m" by auto
    with True Cons.prems have n: "n = Suc m"
      by (simp add: reading_pattern_def)
    from Cons.IH [OF m] obtain a d where
      "take m cs = a @ CHR ''-'' # d" "newline \<notin> set a" "d \<noteq> []" "list_all is_digit d" "m \<le> length cs"
      by blast
    with True n have "take n (c # cs) = (c # a) @ CHR ''-'' # d \<and> newline \<notin> set (c # a) \<and>
        d \<noteq> [] \<and> list_all is_digit d \<and> n \<le> length (c # cs)"
      by auto
    then show ?thesis by blast
  next
    case False
    with Cons.prems have "rmatch [One (Lit (CHR ''-'')), Plus Digit] (c # cs) = Some n"
      by (auto simp: reading_pattern_def split: if_splits option.splits)
    from rmatch_hyphen_digits_sound [OF this] obtain d where
      "take n (c # cs) = [] @ CHR ''-'' # d" "d \<noteq> []" "list_all is_digit d" "n \<le> length (c # cs)"
      by auto
    then show ?thesis
      by (metis empty_iff list.set(1))
  qed
qed

lemma hyphen_after_digits:
  assumes d: "list_all is_digit d" and t: "take m (d @ t) = a @ CHR ''-'' # e"
  shows "length d \<le> length a"
proof (rule ccontr)
  assume "\<not> length d \<le> length a"
  then have lt: "length a < length d" by simp
  have "length (take m (d @ t)) = length a + 1 + length e"
    using t by simp
  then have am: "length a < m" by simp
  have "take m (d @ t) ! length a = CHR ''-''"
    by (simp only: t nth_append_length)
  with am have "(d @ t) ! length a = CHR ''-''"
    by (simp only: nth_take)
  with lt have "d ! length a = CHR ''-''"
    by (simp add: nth_append)
  with lt d have "is_digit (CHR ''-'')"
    by (metis list_all_length)
  then show False by (simp add: hyphen_not_digit)
qed

lemma rmatch_reading_maximal:
  "newline \<notin> set a \<Longrightarrow> d \<noteq> [] \<Longrightarrow> list_all is_digit d \<Longrightarrow>
   \<exists>n. rmatch reading_pattern (a @ CHR ''-'' # d @ t) = Some n \<and> length a + 1 + length d \<le> n"
proof (induction a)
  case Nil
  from Nil.prems obtain e es where d: "d = e # es" by (cases d) auto
  show ?case
  proof (cases "rmatch reading_pattern (d @ t)")
    case None
    have "length es \<le> length (takeWhile is_digit (es @ t))"
      using Nil.prems d by (simp add: list_all_iff takeWhile_append2)
    with None Nil.prems d show ?thesis
      by (simp add: reading_pattern_def hyphen_not_newline rmatch_star_digit)
  next
    case (Some m)
    from rmatch_reading_sound [OF Some] obtain a' d' where
      tk: "take m (d @ t) = a' @ CHR ''-'' # d'" by blast
    from hyphen_after_digits [OF Nil.prems(3) tk] have "length d \<le> length a'" .
    moreover from tk have "length (take m (d @ t)) = length a' + 1 + length d'" by simp
    ultimately have "length d \<le> m" by simp
    with Some show ?thesis
      by (simp add: reading_pattern_def hyphen_not_newline)
  qed
next
  case (Cons x a)
  then obtain n where "rmatch reading_pattern (a @ CHR ''-'' # d @ t) = Some n"
    and "length a + 1 + length d \<le> n"
    by auto
  moreover from Cons.prems have "x \<noteq> newline"
    by auto
  ultimately show ?case
    by (simp add: reading_pattern_def)
qed

text \<open>
  Claim C5, as amended: for every payload string the extractor never fails. When some
  prefix of the payload consists of characters other than newline, then a hyphen, then
  one or more digits, the reading is the longest such prefix (whatever the characters
  before the hyphen are: the letter of an exponent is kept); when there is no such prefix
  the reading is the empty string.
\<close>

theorem reading_extraction_greedy_prefix:
  "(\<exists>n a d. extract_reading (Str s) = Inr (take n s) \<and> take n s = a @ CHR ''-'' # d \<and>
      newline \<notin> set a \<and> d \<noteq> [] \<and> list_all is_digit d \<and>
      (\<forall>a' d' t. s = a' @ CHR ''-'' # d' @ t \<and> newline \<notin> set a' \<and> d' \<noteq> [] \<and> list_all is_digit d'
         \<longrightarrow> length (a' @ CHR ''-'' # d') \<le> n))
   \<or> (extract_reading (Str s) = Inr [] \<and>
       (\<forall>a d t. newline \<notin> set a \<and> d \<noteq> [] \<and> list_all is_digit d \<longrightarrow> s \<noteq> a @ CHR ''-'' # d @ t))"
proof (cases "rmatch reading_pattern s")
  case None
  have "s \<noteq> a @ CHR ''-'' # d @ t" if "newline \<notin> set a" "d \<noteq> []" "list_all is_digit d" for a d t
    using rmatch_reading_maximal [OF that, of t] None by auto
  with None show ?thesis
    by (simp add: extract_reading_def)
next
  case (Some n)
  from rmatch_reading_sound [OF Some] obtain a d where
    ad: "take n s = a @ CHR ''-'' # d" "newline \<notin> set a" "d \<noteq> []" "list_all is_digit d"
    by blast
  have mx: "length (a' @ CHR ''-'' # d') \<le> n"
    if "s = a' @ CHR ''-'' # d' @ t \<and> newline \<notin> set a' \<and> d' \<noteq> [] \<and> list_all is_digit d'" for a' d' t
    using rmatch_reading_maximal [of a' d' t] that Some by auto
  from Some have "extract_reading (Str s) = Inr (take n s)"
    by (simp add: extract_reading_def)
  with ad mx show ?thesis
    by blast
qed

theorem reading_extraction_witness:
  "''1.23E-04 OK'' = ''1.23E'' @ CHR ''-'' # ''04'' @ '' OK'' \<and>
   newline \<notin> set ''1.23E'' \<and> ''04'' \<noteq> [] \<and> list_all is_digit ''04'' \<and>
   extract_reading (Str ''1.23E-04 OK'') \<noteq> Inr [] \<and>
   extract_reading (Str ''1.23E-04 OK'') = Inr ''1.23E-04'' \<and>
   extract_reading (Str ''ERROR'') = Inr []"
proof -
  define s a0 d0 t0 where "s = ''1.23E-04 OK''" and "a0 = ''1.23E''" and "d0 = ''04''"
    and "t0 = '' OK''"
  have h: "s = a0 @ CHR ''-'' # d0 @ t0 \<and> newline \<notin> set a0 \<and> d0 \<noteq> [] \<and> list_all is_digit d0"
    by (simp add: s_def a0_def d0_def t0_def newline_def is_digit_def)
  have ne: "extract_reading (Str s) \<noteq> Inr []"
  proof
    assume e: "extract_reading (Str s) = Inr []"
    from reading_extraction_greedy_prefix [of s]
    show False
    proof
      assume "\<exists>n a d. extract_reading (Str s) = Inr (take n s) \<and> take n s = a @ CHR ''-'' # d \<and>
        newline \<notin> set a \<and> d \<noteq> [] \<and> list_all is_digit d \<and>
        (\<forall>a' d' t. s = a' @ CHR ''-'' # d' @ t \<and> newline \<notin> set a' \<and> d' \<noteq> [] \<and> list_all is_digit d'
           \<longrightarrow> length (a' @ CHR ''-'' # d') \<le> n)"
      then obtain n a d where "extract_reading (Str s) = Inr (take n s)" and "take n s = a @ CHR ''-'' # d"
        by blast
      with e show False by simp
    next
      assume "extract_reading (Str s) = Inr [] \<and>
        (\<forall>a d t. newline \<notin> set a \<and> d \<noteq> [] \<and> list_all is_digit d \<longrightarrow> s \<noteq> a @ CHR ''-'' # d @ t)"
      with h show False by blast
    qed
  qed
  have e1: "extract_reading (Str ''1.23E-04 OK'') = Inr ''1.23E-04''"
    by code_simp
  have e2: "extract_reading (Str ''ERROR'') = Inr []"
    by code_simp
  from h ne e1 e2 show ?thesis
    unfolding s_def a0_def d0_def t0_def by (simp only: simp_thms)
qed

text \<open>
  Claim C5 as stated (the reading has the shape digits and decimal points, hyphen, digits)
  fails on its own example: the reading of \<open>1.23E-04 OK\<close> is \<open>1.23E-04\<close>, which keeps
  the letter E and is not of that shape.
\<close>

theorem reading_keeps_exponent_letter_counterexample:
  "extract_reading (Str ''1.23E-04 OK'') = Inr ''1.23E-04'' \<and>
   \<not> spec_reading_shape ''1.23E-04'' \<and>
   extract_reading (Str ''1.23E-04 OK'') \<noteq> Inr ''1.23-04''"
  by code_simp

section \<open>The gauge list at startup\<close>



lemma check_gauges_invalid:
  "\<not> list_all valid_gauge gs \<Longrightarrow>
   fst (check_gauges gs w) = Inl (SystemExit 1) \<and>
   (\<exists>g \<in> set gs. \<not> valid_gauge g \<and>
      (snd (check_gauges gs w) = print_line (''Invalid gauge: '' @ g) w \<or>
       snd (check_gauges gs w) = print_line (''Invalid gauge '' @ g @ '' (should be 0-9)'') w))"
proof (induction gs)
  case Nil
  then show ?case by simp
next
  case (Cons g gs)
  show ?case
  proof (cases "valid_gauge g")
    case True
    with Cons.prems have "\<not> list_all valid_gauge gs" by simp
    from Cons.IH [OF this] True show ?thesis
      by (auto simp: valid_gauge_def split: sum.splits)
  next
    case False
    then show ?thesis
      by (auto simp: valid_gauge_def split: sum.splits)
  qed
qed

text \<open>
  Claim C7: when an entry of the gauge list is not accepted by \<open>int\<close> or is an integer
  outside 0 to 9, the startup ends with exit code 1; the serial port is not opened,
  nothing is written to or read from it, the log file is untouched, and the only output
  is the message naming an invalid entry: no CSV header and no data line.
\<close>

theorem invalid_gauge_exits_before_any_io:
  "\<not> list_all valid_gauge (py_split (CHR '','') (opt_gauges a)) \<Longrightarrow>
   fst (startup a w) = Inl (SystemExit 1) \<and>
   serial_open (snd (startup a w)) = serial_open w \<and>
   tx (snd (startup a w)) = tx w \<and>
   reads (snd (startup a w)) = reads w \<and>
   logfile (snd (startup a w)) = logfile w \<and>
   (\<exists>g \<in> set (py_split (CHR '','') (opt_gauges a)). \<not> valid_gauge g \<and>
      (stdout (snd (startup a w)) = stdout w @ ''Invalid gauge: '' @ g @ [newline] \<or>
       stdout (snd (startup a w)) = stdout w @ ''Invalid gauge '' @ g @ '' (should be 0-9)'' @ [newline]))"
proof -
  assume inv: "\<not> list_all valid_gauge (py_split (CHR '','') (opt_gauges a))"
  obtain e w1 where c: "check_gauges (py_split (CHR '','') (opt_gauges a)) w = (e, w1)"
    by (cases "check_gauges (py_split (CHR '','') (opt_gauges a)) w")
  from check_gauges_invalid [OF inv, of w] c
  have e: "e = Inl (SystemExit 1)"
    and g: "\<exists>g \<in> set (py_split (CHR '','') (opt_gauges a)). \<not> valid_gauge g \<and>
      (w1 = print_line (''Invalid gauge: '' @ g) w \<or>
       w1 = print_line (''Invalid gauge '' @ g @ '' (should be 0-9)'') w)"
    by simp_all
  have s: "startup a w = (Inl (SystemExit 1), w1)"
    by (simp add: startup_def c e)
  from g show ?thesis
    unfolding s by (auto simp: print_line_def)
qed

theorem invalid_gauge_witness:
  "\<not> list_all valid_gauge (py_split (CHR '','') (opt_gauges (args0\<lparr>opt_gauges := ''0,15''\<rparr>))) \<and>
   fst (startup (args0\<lparr>opt_gauges := ''0,15''\<rparr>) world0) = Inl (SystemExit 1) \<and>
   \<not> serial_open (snd (startup (args0\<lparr>opt_gauges := ''0,15''\<rparr>) world0)) \<and>
   logfile (snd (startup (args0\<lparr>opt_gauges := ''0,15''\<rparr>) world0)) = []"
proof -
  have h: "\<not> list_all valid_gauge (py_split (CHR '','') (opt_gauges (args0\<lparr>opt_gauges := ''0,15''\<rparr>)))"
    by code_simp
  from invalid_gauge_exits_before_any_io [OF h, of world0] h show ?thesis
    by (simp add: world0_def)
qed


lemma tx_stderr_write [simp]: "tx (stderr_write m w) = tx w"
  by (simp add: stderr_write_def)














lemma tx_check_gauges: "tx (snd (check_gauges gs w)) = tx w"
  by (induction gs) (auto simp: print_line_def split: sum.splits)








section \<open>Faults on the line\<close>

lemma send_timeout_diagnostic:
  "length cmd \<le> 255 \<Longrightarrow> wtimeouts w = True # ts \<Longrightarrow>
   fst (send cmd w) = Inr () \<and>
   stderr (snd (send cmd w)) = stderr w @ ''%s: serial timeout sending command: %s''"
  by (simp add: send_def chr_len checksum_eq port_write_def now_def stderr_write_def fmt_send)

text \<open>
  Claim C1 at a failing input: a frame whose checksum byte is wrong makes \<open>receive\<close>
  write its message with the payload and return \<open>None\<close>, not the empty string; in a
  polling cycle where gauge 0 answers with a valid frame and gauge 1 with such a frame,
  \<open>re.match\<close> raises TypeError on \<open>None\<close> and the cycle ends there, with no CSV line
  written.
\<close>

theorem checksum_mismatch_returns_none_and_aborts_poll:
  "fst (receive 5 (world0\<lparr>rx := map Some [CHR 0x02, CHR 0x01, CHR ''A'', CHR ''B'']\<rparr>)) = Inr PyNone \<and>
   stderr (snd (receive 5 (world0\<lparr>rx := map Some [CHR 0x02, CHR 0x01, CHR ''A'', CHR ''B'']\<rparr>))) =
     ''Invalid message: A'' @ [newline] \<and>
   fst (poll_cycle args0 [''0'', ''1'']
         (world0\<lparr>rx := map Some (spec_frame ''1.5E-3'' @ [CHR 0x02, CHR 0x01, CHR ''A'', CHR ''B''])\<rparr>)) =
     Inl TypeError \<and>
   stdout (snd (poll_cycle args0 [''0'', ''1'']
         (world0\<lparr>rx := map Some (spec_frame ''1.5E-3'' @ [CHR 0x02, CHR 0x01, CHR ''A'', CHR ''B''])\<rparr>))) = []"
  by code_simp

text \<open>
  Claim C8 at a failing input: when the write of the frame for \<open>S00\<close> times out,
  \<open>send\<close> raises nothing, but the message on the error channel is the format string
  itself, with neither the timestamp nor the command in it.
\<close>

theorem write_timeout_diagnostic_lacks_timestamp_and_command:
  "fst (send ''S00'' (world0\<lparr>wtimeouts := [True]\<rparr>)) = Inr () \<and>
   stderr (snd (send ''S00'' (world0\<lparr>wtimeouts := [True]\<rparr>))) =
     ''%s: serial timeout sending command: %s''"
  by code_simp

end
